theory Spec2Isabelle
  imports Main "HOL-Library.Word" "HOL-Library.Multiset"
begin

section \<open>Sleep feasibility engine of elogind: src/shared/sleep-config.c\<close>

text \<open>
  The C functions of \<^verbatim>\<open>sleep-config.c\<close> are embedded as HOL functions of the same
  names. A C \<^verbatim>\<open>int\<close> return code is an \<open>int\<close>: \<open>1\<close> is \<^verbatim>\<open>true\<close> (the spec's
  \<open>Yes\<close> and \<open>Supported\<close>), \<open>0\<close> is \<^verbatim>\<open>false\<close> (\<open>No\<close>, \<open>Unsupported\<close>), and a negative
  value \<open>- errno_value e\<close> is the error \<open>e\<close>. Everything the code asks of the outside world
  (the two files under \<^verbatim>\<open>/sys/power\<close>, the tokenizer's failure, the two resource
  checks, the parsed \<^verbatim>\<open>sleep.conf\<close>, the allocator) is a field of a record handed to the
  function, and every function that probes the kernel returns, next to its result, the
  list of the probes it made, in order.
\<close>

subsection \<open>Error numbers\<close>

datatype errno = EPERM | ENOENT | EIO | ENOMEM | EACCES | EINVAL | ENOSPC | EROFS | ENOMSG

text \<open>The Linux values of \<^verbatim>\<open>errno.h\<close>; all are positive.\<close>

fun errno_value :: "errno \<Rightarrow> int" where
  "errno_value EPERM = 1"
| "errno_value ENOENT = 2"
| "errno_value EIO = 5"
| "errno_value ENOMEM = 12"
| "errno_value EACCES = 13"
| "errno_value EINVAL = 22"
| "errno_value ENOSPC = 28"
| "errno_value EROFS = 30"
| "errno_value ENOMSG = 42"

subsection \<open>The data model\<close>

text \<open>
  \<^verbatim>\<open>SleepOperation\<close> (sleep-config.h). The first three index the \<^verbatim>\<open>modes\<close> and
  \<^verbatim>\<open>states\<close> arrays (\<^verbatim>\<open>_SLEEP_OPERATION_CONFIG_MAX\<close> entries); all four index
  \<^verbatim>\<open>allow\<close>.
\<close>

datatype SleepOperation =
    SLEEP_SUSPEND
  | SLEEP_HIBERNATE
  | SLEEP_HYBRID_SLEEP
  | SLEEP_SUSPEND_THEN_HIBERNATE

text \<open>A \<^verbatim>\<open>char **\<close> string vector: \<open>None\<close> is the \<^verbatim>\<open>NULL\<close> pointer.\<close>

type_synonym strv = "string list option"

type_synonym usec_t = "64 word"

record SleepConfig =
  allow :: "SleepOperation \<Rightarrow> bool"
  modes :: "SleepOperation \<Rightarrow> strv"
  states :: "SleepOperation \<Rightarrow> strv"
  hibernate_delay_usec :: usec_t
  suspend_estimation_usec :: usec_t

definition USEC_INFINITY :: usec_t where
  "USEC_INFINITY = - 1"

definition USEC_PER_HOUR :: usec_t where
  "USEC_PER_HOUR = 60 * 60 * 1000000"

definition DEFAULT_SUSPEND_ESTIMATION_USEC :: usec_t where
  "DEFAULT_SUSPEND_ESTIMATION_USEC = 1 * USEC_PER_HOUR"

subsection \<open>The kernel as the code sees it\<close>

datatype sysfs = SysPowerState | SysPowerDisk

text \<open>One entry of the trace per call that leaves the process.\<close>

datatype probe =
    Access sysfs
  | ReadOneLine sysfs
  | ClockSupported
  | EnoughSwap

type_synonym trace = "probe list"

text \<open>
  \<open>access_w_ok f\<close> is \<^verbatim>\<open>access(f, W_OK)\<close>: \<open>None\<close> when it returns 0, \<open>Some e\<close> when it
  fails with \<^verbatim>\<open>errno = e\<close>. \<open>read_one_line_file f\<close> is the line read or the error.
  \<open>extract_error p\<close> is the error with which the tokenizer fails when called on the rest
  \<open>p\<close> of a line, if it does. The last two fields are
  \<^verbatim>\<open>clock_supported(CLOCK_BOOTTIME_ALARM)\<close> and \<^verbatim>\<open>enough_swap_for_hibernation()\<close>.
\<close>

record kernel =
  access_w_ok :: "sysfs \<Rightarrow> errno option"
  read_one_line_file :: "sysfs \<Rightarrow> errno + string"
  extract_error :: "string \<Rightarrow> errno option"
  clock_supported :: bool
  enough_swap_for_hibernation :: bool

subsection \<open>String helpers\<close>

text \<open>
  Modelled from the spec: \<^verbatim>\<open>strv_isempty\<close> and \<^verbatim>\<open>strv_contains\<close> of strv.h, which
  is not among the sources: ``if candidates is empty'' and ``is a member of candidates''.
  A \<^verbatim>\<open>NULL\<close> vector is empty and contains nothing.
\<close>

definition strv_isempty :: "strv \<Rightarrow> bool" where
  "strv_isempty l = (case l of None \<Rightarrow> True | Some xs \<Rightarrow> xs = [])"

definition strv_contains :: "strv \<Rightarrow> string \<Rightarrow> bool" where
  "strv_contains l s = (case l of None \<Rightarrow> False | Some xs \<Rightarrow> s \<in> set xs)"

text \<open>
  Modelled from the spec: the separators of the tokenizer, ``tokenize on whitespace''
  (the tokenizer is called with \<^verbatim>\<open>NULL\<close> separators, which stands for the macro
  \<^verbatim>\<open>WHITESPACE\<close>: space, tab, newline and carriage return).
\<close>

definition WHITESPACE :: string where
  "WHITESPACE = [CHR '' '', CHR 0x09, CHR 0x0A, CHR 0x0D]"

definition is_separator :: "char \<Rightarrow> bool" where
  "is_separator c = (c \<in> set WHITESPACE)"

text \<open>
  Modelled from the spec: one step of the whitespace tokenizer. Skip the separators, then
  cut the word at the next separator; \<open>None\<close> when nothing but separators is left.
\<close>

definition split_first_word :: "string \<Rightarrow> (string \<times> string) option" where
  "split_first_word p =
     (let q = dropWhile is_separator p in
      if q = [] then None
      else Some (takeWhile (\<lambda>c. \<not> is_separator c) q, dropWhile (\<lambda>c. \<not> is_separator c) q))"

text \<open>
  Modelled from the spec: \<^verbatim>\<open>extract_first_word(&p, &word, NULL, 0)\<close> of extract-word.c,
  which is not among the sources. The spec has the probes ``read the file's single line
  and tokenize on whitespace'', and an error kind for content that ``could not be
  tokenized''. \<open>Inl e\<close> is the return value \<open>- errno_value e\<close>, \<open>Inr None\<close> is \<open>0\<close> (the
  end of the line), \<open>Inr (Some (word, p'))\<close> is a positive return with the word and the
  advanced pointer.
\<close>

definition extract_first_word :: "kernel \<Rightarrow> string \<Rightarrow> errno + (string \<times> string) option" where
  "extract_first_word k p =
     (case extract_error k p of
        Some e \<Rightarrow> Inl e
      | None \<Rightarrow> Inr (split_first_word p))"

lemma split_first_word_shorter:
  "split_first_word p = Some (w, p') \<Longrightarrow> length p' < length p"
proof -
  assume a: "split_first_word p = Some (w, p')"
  let ?q = "dropWhile is_separator p"
  from a have q: "?q \<noteq> []" and p': "p' = dropWhile (\<lambda>c. \<not> is_separator c) ?q"
    by (auto simp: split_first_word_def Let_def split: if_splits)
  from q have "\<not> is_separator (hd ?q)"
    using hd_dropWhile by blast
  with q have "length (dropWhile (\<lambda>c. \<not> is_separator c) ?q) < length ?q"
    by (cases ?q) (auto simp: less_Suc_eq_le length_dropWhile_le)
  moreover have "length ?q \<le> length p"
    by (rule length_dropWhile_le)
  ultimately show ?thesis using p' by simp
qed

lemma extract_first_word_shorter:
  "extract_first_word k p = Inr (Some (w, p')) \<Longrightarrow> length p' < length p"
  by (auto simp: extract_first_word_def split: option.splits dest: split_first_word_shorter)

text \<open>
  The words of a line, in order: what the tokenizer yields, call after call, when it
  never fails.
\<close>

function words_of :: "string \<Rightarrow> string list" where
  "words_of p =
     (case split_first_word p of
        None \<Rightarrow> []
      | Some (w, p') \<Rightarrow> w # words_of p')"
  by pat_completeness auto
termination
  by (relation "measure length") (auto dest: split_first_word_shorter)

declare words_of.simps [simp del]

text \<open>
  Modelled from the spec: \<^verbatim>\<open>string_contains_word_strv(string, NULL, words, &found)\<close> of
  string-util.c, which is not among the sources: ``tokenize on whitespace, and test
  whether any token in candidates appears as a tokenized word in the kernel's reported
  set; return Supported on first match, else Unsupported''. The word found is only
  logged and is left out.
\<close>

function string_contains_word_strv :: "kernel \<Rightarrow> string \<Rightarrow> strv \<Rightarrow> int" where
  "string_contains_word_strv k p words =
     (case extract_first_word k p of
        Inl e \<Rightarrow> - errno_value e
      | Inr None \<Rightarrow> 0
      | Inr (Some (w, p')) \<Rightarrow>
          if strv_contains words w then 1
          else string_contains_word_strv k p' words)"
  by pat_completeness auto
termination
  by (relation "measure (\<lambda>(k, p, words). length p)")
     (auto dest: extract_first_word_shorter)

declare string_contains_word_strv.simps [simp del]

subsection \<open>The capability probe\<close>

text \<open>\<^verbatim>\<open>sleep_state_supported\<close>, lines 115 to 143.\<close>

definition sleep_state_supported :: "kernel \<Rightarrow> strv \<Rightarrow> int \<times> trace" where
  "sleep_state_supported k sts =
     (if strv_isempty sts then (- errno_value ENOMSG, [])
      else case access_w_ok k SysPowerState of
        Some e \<Rightarrow> (- errno_value e, [Access SysPowerState])
      | None \<Rightarrow>
         (case read_one_line_file k SysPowerState of
            Inl e \<Rightarrow> (- errno_value e, [Access SysPowerState, ReadOneLine SysPowerState])
          | Inr supported_sysfs \<Rightarrow>
             (let r = string_contains_word_strv k supported_sysfs sts in
              if r < 0 then (r, [Access SysPowerState, ReadOneLine SysPowerState])
              else if r > 0 then (1, [Access SysPowerState, ReadOneLine SysPowerState])
              else (0, [Access SysPowerState, ReadOneLine SysPowerState]))))"

text \<open>
  Lines 173 to 179: when the word starts with \<^verbatim>\<open>[\<close> and ends with \<^verbatim>\<open>]\<close>, its last
  character is overwritten with the terminator and the pointer moves past the first. On
  the empty word the first test reads the terminator and fails.
\<close>

definition strip_brackets :: "string \<Rightarrow> string" where
  "strip_brackets word =
     (if word \<noteq> [] \<and> hd word = CHR ''['' \<and> last word = CHR '']''
      then tl (butlast word) else word)"

text \<open>The loop of lines 162 to 185 from the pointer \<open>p\<close> on, then line 191.\<close>

function sleep_mode_loop :: "kernel \<Rightarrow> strv \<Rightarrow> string \<Rightarrow> int" where
  "sleep_mode_loop k mds p =
     (case extract_first_word k p of
        Inl e \<Rightarrow> - errno_value e
      | Inr None \<Rightarrow> 0
      | Inr (Some (word, p')) \<Rightarrow>
          if strv_contains mds (strip_brackets word) then 1
          else sleep_mode_loop k mds p')"
  by pat_completeness auto
termination
  by (relation "measure (\<lambda>(k, mds, p). length p)")
     (auto dest: extract_first_word_shorter)

declare sleep_mode_loop.simps [simp del]

text \<open>\<^verbatim>\<open>sleep_mode_supported\<close>, lines 145 to 192.\<close>

definition sleep_mode_supported :: "kernel \<Rightarrow> strv \<Rightarrow> int \<times> trace" where
  "sleep_mode_supported k mds =
     (if strv_isempty mds then (1, [])
      else case access_w_ok k SysPowerDisk of
        Some e \<Rightarrow> (- errno_value e, [Access SysPowerDisk])
      | None \<Rightarrow>
         (case read_one_line_file k SysPowerDisk of
            Inl e \<Rightarrow> (- errno_value e, [Access SysPowerDisk, ReadOneLine SysPowerDisk])
          | Inr supported_sysfs \<Rightarrow>
              (sleep_mode_loop k mds supported_sysfs,
               [Access SysPowerDisk, ReadOneLine SysPowerDisk])))"

subsection \<open>The decision engine\<close>

text \<open>
  \<^verbatim>\<open>can_s2h\<close> and \<^verbatim>\<open>can_sleep_internal\<close> call each other. The embedding hands
  \<^verbatim>\<open>can_s2h\<close> the call \<^verbatim>\<open>can_sleep_internal(sleep_config, \<cdot>, false)\<close> as the function
  \<open>sub\<close>, so that the loop over \<^verbatim>\<open>operations[]\<close> is a function of its own.

  \<^verbatim>\<open>can_s2h\<close> is declared \<^verbatim>\<open>static bool\<close>: a value it returns is converted to
  \<^verbatim>\<open>bool\<close>, which is \<^verbatim>\<open>true\<close> for every value other than 0. Line 217 returns the
  negative \<open>r\<close> through that conversion, written \<open>r \<noteq> 0\<close> below.
\<close>

definition operations :: "SleepOperation list" where
  "operations = [SLEEP_SUSPEND, SLEEP_HIBERNATE]"

text \<open>The loop of lines 210 to 218, then line 220.\<close>

fun can_s2h_loop :: "(SleepOperation \<Rightarrow> int \<times> trace) \<Rightarrow> SleepOperation list \<Rightarrow> bool \<times> trace" where
  "can_s2h_loop sub [] = (True, [])"
| "can_s2h_loop sub (operation # rest) =
     (case sub operation of (r, t) \<Rightarrow>
        if r = 0 \<or> r = - errno_value ENOSPC then (False, t)
        else if r < 0 then (r \<noteq> 0, t)
        else (case can_s2h_loop sub rest of (b, t') \<Rightarrow> (b, t @ t')))"

text \<open>\<^verbatim>\<open>can_s2h\<close>, lines 196 to 221.\<close>

definition can_s2h :: "kernel \<Rightarrow> (SleepOperation \<Rightarrow> int \<times> trace) \<Rightarrow> bool \<times> trace" where
  "can_s2h k sub =
     (if \<not> clock_supported k then (False, [ClockSupported])
      else case can_s2h_loop sub operations of (b, t) \<Rightarrow> (b, ClockSupported # t))"

lemma can_s2h_loop_cong:
  "(\<And>operation. operation \<in> set ops \<Longrightarrow> f operation = g operation) \<Longrightarrow>
   can_s2h_loop f ops = can_s2h_loop g ops"
  by (induction ops) (auto split: prod.splits)

lemma can_s2h_cong [fundef_cong]:
  "k = k' \<Longrightarrow> (\<And>operation. operation \<in> set operations \<Longrightarrow> f operation = g operation) \<Longrightarrow>
   can_s2h k f = can_s2h k' g"
  using can_s2h_loop_cong [of operations f g] by (simp add: can_s2h_def)

text \<open>
  \<^verbatim>\<open>can_sleep_internal\<close>, lines 223 to 250. The \<^verbatim>\<open>bool\<close> of \<^verbatim>\<open>can_s2h\<close> is returned
  as an \<^verbatim>\<open>int\<close>: 1 or 0. The second probe of line 240 is only made when the first
  returned a positive value.
\<close>

function can_sleep_internal ::
  "kernel \<Rightarrow> SleepConfig \<Rightarrow> SleepOperation \<Rightarrow> bool \<Rightarrow> int \<times> trace" where
  "can_sleep_internal k sleep_config operation check_allowed =
     (if check_allowed \<and> \<not> allow sleep_config operation then (0, [])
      else if operation = SLEEP_SUSPEND_THEN_HIBERNATE then
        (case can_s2h k (\<lambda>op. can_sleep_internal k sleep_config op False) of
           (b, t) \<Rightarrow> (if b then 1 else 0, t))
      else
        (case sleep_state_supported k (states sleep_config operation) of (rs, ts) \<Rightarrow>
           if rs \<le> 0 then (0, ts)
           else
             (case sleep_mode_supported k (modes sleep_config operation) of (rm, tm) \<Rightarrow>
                if rm \<le> 0 then (0, ts @ tm)
                else if operation = SLEEP_SUSPEND then (1, ts @ tm)
                else if \<not> enough_swap_for_hibernation k
                  then (- errno_value ENOSPC, ts @ tm @ [EnoughSwap])
                else (1, ts @ tm @ [EnoughSwap]))))"
  by pat_completeness auto
termination
  by (relation "measure (\<lambda>(k, sleep_config, operation, check_allowed).
        if operation = SLEEP_SUSPEND_THEN_HIBERNATE then 1 else 0)")
     (auto simp: operations_def)

declare can_sleep_internal.simps [simp del]

subsection \<open>Loading the configuration\<close>

text \<open>
  What \<^verbatim>\<open>config_parse_config_file\<close> did to the targets of the table of lines 62 to 78:
  \<open>None\<close> leaves a target as it was initialised, \<open>Some v\<close> stores \<open>v\<close>. The three-state
  settings are \<open>None\<close> (unset), \<open>Some True\<close> and \<open>Some False\<close>. For a string vector
  \<open>None\<close> is the \<^verbatim>\<open>NULL\<close> it starts as.
\<close>

record sleep_conf =
  AllowSuspend :: "bool option"
  AllowHibernation :: "bool option"
  AllowSuspendThenHibernate :: "bool option"
  AllowHybridSleep :: "bool option"
  SuspendMode :: strv
  SuspendState :: strv
  HibernateMode :: strv
  HibernateState :: strv
  HybridSleepMode :: strv
  HybridSleepState :: strv
  HibernateDelaySec :: "usec_t option"
  SuspendEstimationSec :: "usec_t option"

text \<open>
  The allocator: whether \<^verbatim>\<open>new(SleepConfig, 1)\<close> succeeds, and whether \<^verbatim>\<open>strv_new\<close> of
  a given list does.
\<close>

record allocator =
  new_ok :: bool
  strv_new_ok :: "string list \<Rightarrow> bool"

definition strv_new :: "allocator \<Rightarrow> string list \<Rightarrow> strv" where
  "strv_new a l = (if strv_new_ok a l then Some l else None)"

text \<open>The \<^verbatim>\<open>int\<close> a three-state setting is stored as: -1 unset, 0 false, 1 true.\<close>

fun tristate :: "bool option \<Rightarrow> int" where
  "tristate None = - 1"
| "tristate (Some False) = 0"
| "tristate (Some True) = 1"

text \<open>Lines 92 to 101: a vector that is still \<^verbatim>\<open>NULL\<close> gets the default.\<close>

definition or_default :: "allocator \<Rightarrow> strv \<Rightarrow> string list \<Rightarrow> strv" where
  "or_default a v l = (case v of None \<Rightarrow> strv_new a l | Some xs \<Rightarrow> Some xs)"

text \<open>
  \<^verbatim>\<open>parse_sleep_config\<close>, lines 48 to 113. \<open>Inl ENOMEM\<close> is the return of
  \<^verbatim>\<open>log_oom()\<close>. The entries of \<^verbatim>\<open>modes\<close> and \<^verbatim>\<open>states\<close> that the code never writes
  keep the \<^verbatim>\<open>NULL\<close> of the initialiser; the composite operation has no entry in the
  arrays and is given \<open>None\<close>.
\<close>

definition parse_sleep_config :: "allocator \<Rightarrow> sleep_conf \<Rightarrow> errno + SleepConfig" where
  "parse_sleep_config a c =
     (if \<not> new_ok a then Inl ENOMEM
      else
        let allow_suspend = tristate (AllowSuspend c);
            allow_hibernate = tristate (AllowHibernation c);
            allow_s2h = tristate (AllowSuspendThenHibernate c);
            allow_hybrid_sleep = tristate (AllowHybridSleep c);
            hibernate_delay = (case HibernateDelaySec c of None \<Rightarrow> USEC_INFINITY | Some v \<Rightarrow> v);
            suspend_estimation = (case SuspendEstimationSec c of None \<Rightarrow> 0 | Some v \<Rightarrow> v);
            states_suspend = or_default a (SuspendState c) [''mem'', ''standby'', ''freeze''];
            modes_hibernate = or_default a (HibernateMode c) [''platform'', ''shutdown''];
            states_hibernate = or_default a (HibernateState c) [''disk''];
            modes_hybrid = or_default a (HybridSleepMode c) [''suspend'', ''platform'', ''shutdown''];
            states_hybrid = or_default a (HybridSleepState c) [''disk'']
        in
        if states_suspend = None \<or> modes_hibernate = None \<or> states_hibernate = None
           \<or> modes_hybrid = None \<or> states_hybrid = None
        then Inl ENOMEM
        else Inr \<lparr>
          allow = (\<lambda>operation. case operation of
              SLEEP_SUSPEND \<Rightarrow> allow_suspend \<noteq> 0
            | SLEEP_HIBERNATE \<Rightarrow> allow_hibernate \<noteq> 0
            | SLEEP_HYBRID_SLEEP \<Rightarrow>
                (if allow_hybrid_sleep \<ge> 0 then allow_hybrid_sleep \<noteq> 0
                 else (allow_suspend \<noteq> 0 \<and> allow_hibernate \<noteq> 0))
            | SLEEP_SUSPEND_THEN_HIBERNATE \<Rightarrow>
                (if allow_s2h \<ge> 0 then allow_s2h \<noteq> 0
                 else (allow_suspend \<noteq> 0 \<and> allow_hibernate \<noteq> 0))),
          modes = (\<lambda>operation. case operation of
              SLEEP_SUSPEND \<Rightarrow> SuspendMode c
            | SLEEP_HIBERNATE \<Rightarrow> modes_hibernate
            | SLEEP_HYBRID_SLEEP \<Rightarrow> modes_hybrid
            | SLEEP_SUSPEND_THEN_HIBERNATE \<Rightarrow> None),
          states = (\<lambda>operation. case operation of
              SLEEP_SUSPEND \<Rightarrow> states_suspend
            | SLEEP_HIBERNATE \<Rightarrow> states_hibernate
            | SLEEP_HYBRID_SLEEP \<Rightarrow> states_hybrid
            | SLEEP_SUSPEND_THEN_HIBERNATE \<Rightarrow> None),
          hibernate_delay_usec = hibernate_delay,
          suspend_estimation_usec =
            (if suspend_estimation = 0 then DEFAULT_SUSPEND_ESTIMATION_USEC
             else suspend_estimation) \<rparr>)"

subsection \<open>The public query\<close>

text \<open>\<^verbatim>\<open>can_sleep\<close>, lines 252 to 261.\<close>

definition can_sleep ::
  "allocator \<Rightarrow> sleep_conf \<Rightarrow> kernel \<Rightarrow> SleepOperation \<Rightarrow> int \<times> trace" where
  "can_sleep a c k operation =
     (case parse_sleep_config a c of
        Inl e \<Rightarrow> (- errno_value e, [])
      | Inr sleep_config \<Rightarrow> can_sleep_internal k sleep_config operation True)"

subsection \<open>Example hosts\<close>

text \<open>
  A host on which everything works: both files are writable, the kernel offers
  \<^verbatim>\<open>freeze mem disk\<close> and the disk modes \<^verbatim>\<open>[platform] shutdown reboot\<close>, the
  tokenizer does not fail, the alarm clock exists and the swap is large enough.
\<close>

definition host_kernel :: kernel where
  "host_kernel = \<lparr>
     access_w_ok = (\<lambda>f. None),
     read_one_line_file = (\<lambda>f. case f of
         SysPowerState \<Rightarrow> Inr ''freeze mem disk''
       | SysPowerDisk \<Rightarrow> Inr ''[platform] shutdown reboot''),
     extract_error = (\<lambda>p. None),
     clock_supported = True,
     enough_swap_for_hibernation = True \<rparr>"

text \<open>An allocator that never fails, and a \<^verbatim>\<open>sleep.conf\<close> that sets nothing.\<close>

definition allocator_fine :: allocator where
  "allocator_fine = \<lparr> new_ok = True, strv_new_ok = (\<lambda>l. True) \<rparr>"

definition conf_unset :: sleep_conf where
  "conf_unset = \<lparr>
     AllowSuspend = None, AllowHibernation = None,
     AllowSuspendThenHibernate = None, AllowHybridSleep = None,
     SuspendMode = None, SuspendState = None,
     HibernateMode = None, HibernateState = None,
     HybridSleepMode = None, HybridSleepState = None,
     HibernateDelaySec = None, SuspendEstimationSec = None \<rparr>"

text \<open>The configuration loaded from \<open>conf_unset\<close>, with \<open>allow\<close> as given.\<close>

definition config_with :: "(SleepOperation \<Rightarrow> bool) \<Rightarrow> SleepConfig" where
  "config_with al = \<lparr>
     allow = al,
     modes = (\<lambda>operation. case operation of
         SLEEP_SUSPEND \<Rightarrow> None
       | SLEEP_HIBERNATE \<Rightarrow> Some [''platform'', ''shutdown'']
       | SLEEP_HYBRID_SLEEP \<Rightarrow> Some [''suspend'', ''platform'', ''shutdown'']
       | SLEEP_SUSPEND_THEN_HIBERNATE \<Rightarrow> None),
     states = (\<lambda>operation. case operation of
         SLEEP_SUSPEND \<Rightarrow> Some [''mem'', ''standby'', ''freeze'']
       | SLEEP_HIBERNATE \<Rightarrow> Some [''disk'']
       | SLEEP_HYBRID_SLEEP \<Rightarrow> Some [''disk'']
       | SLEEP_SUSPEND_THEN_HIBERNATE \<Rightarrow> None),
     hibernate_delay_usec = USEC_INFINITY,
     suspend_estimation_usec = DEFAULT_SUSPEND_ESTIMATION_USEC \<rparr>"

text \<open>The allow flags that are true for every operation but the listed ones.\<close>

definition allow_but :: "SleepOperation list \<Rightarrow> SleepOperation \<Rightarrow> bool" where
  "allow_but ops operation = (operation \<notin> set ops)"

text \<open>The kernel \<open>k\<close> with the line of the file \<open>f\<close> replaced.\<close>

definition with_line :: "kernel \<Rightarrow> sysfs \<Rightarrow> string \<Rightarrow> kernel" where
  "with_line k f line = k\<lparr>read_one_line_file := (read_one_line_file k)(f := Inr line)\<rparr>"

section \<open>Properties\<close>

subsection \<open>The two branches of the decision\<close>

lemma can_sleep_internal_primitive:
  "operation \<noteq> SLEEP_SUSPEND_THEN_HIBERNATE \<Longrightarrow>
   can_sleep_internal k sleep_config operation check_allowed =
     (if check_allowed \<and> \<not> allow sleep_config operation then (0, [])
      else
        (case sleep_state_supported k (states sleep_config operation) of (rs, ts) \<Rightarrow>
           if rs \<le> 0 then (0, ts)
           else
             (case sleep_mode_supported k (modes sleep_config operation) of (rm, tm) \<Rightarrow>
                if rm \<le> 0 then (0, ts @ tm)
                else if operation = SLEEP_SUSPEND then (1, ts @ tm)
                else if \<not> enough_swap_for_hibernation k
                  then (- errno_value ENOSPC, ts @ tm @ [EnoughSwap])
                else (1, ts @ tm @ [EnoughSwap]))))"
  by (subst can_sleep_internal.simps) simp





subsection \<open>The loops over the kernel's words\<close>

text \<open>Both loops depend on the candidates only through membership.\<close>

lemma string_contains_word_strv_members:
  "(\<And>w. strv_contains ws' w = strv_contains ws w) \<Longrightarrow>
   string_contains_word_strv k p ws' = string_contains_word_strv k p ws"
proof (induction "length p" arbitrary: p rule: less_induct)
  case less
  show ?case
    apply (subst string_contains_word_strv.simps)
    apply (subst (2) string_contains_word_strv.simps)
    using less
    by (auto split: sum.splits option.splits dest: extract_first_word_shorter)
qed

lemma sleep_mode_loop_members:
  "(\<And>w. strv_contains ms' w = strv_contains ms w) \<Longrightarrow>
   sleep_mode_loop k ms' p = sleep_mode_loop k ms p"
proof (induction "length p" arbitrary: p rule: less_induct)
  case less
  show ?case
    apply (subst sleep_mode_loop.simps)
    apply (subst (2) sleep_mode_loop.simps)
    using less
    by (auto split: sum.splits option.splits dest: extract_first_word_shorter)
qed

text \<open>When the tokenizer never fails, each loop is a search through \<open>words_of\<close>.\<close>

lemma string_contains_word_strv_words:
  "\<forall>q. extract_error k q = None \<Longrightarrow>
   string_contains_word_strv k p ws =
     (if \<exists>w \<in> set (words_of p). strv_contains ws w then 1 else 0)"
proof (induction p rule: words_of.induct)
  case (1 p)
  show ?case
  proof (cases "split_first_word p")
    case None
    with 1(2) show ?thesis
      by (subst string_contains_word_strv.simps, subst words_of.simps)
         (simp add: extract_first_word_def)
  next
    case (Some a)
    obtain w p' where a: "a = (w, p')" by (cases a)
    from 1(1) [OF Some [unfolded a] refl 1(2)] Some a 1(2) show ?thesis
      by (subst string_contains_word_strv.simps, subst words_of.simps)
         (simp add: extract_first_word_def)
  qed
qed

lemma sleep_mode_loop_words:
  "\<forall>q. extract_error k q = None \<Longrightarrow>
   sleep_mode_loop k ms p =
     (if \<exists>w \<in> set (words_of p). strv_contains ms (strip_brackets w) then 1 else 0)"
proof (induction p rule: words_of.induct)
  case (1 p)
  show ?case
  proof (cases "split_first_word p")
    case None
    with 1(2) show ?thesis
      by (subst sleep_mode_loop.simps, subst words_of.simps)
         (simp add: extract_first_word_def)
  next
    case (Some a)
    obtain w p' where a: "a = (w, p')" by (cases a)
    from 1(1) [OF Some [unfolded a] refl 1(2)] Some a 1(2) show ?thesis
      by (subst sleep_mode_loop.simps, subst words_of.simps)
         (simp add: extract_first_word_def)
  qed
qed

lemmas words_of_eval = words_of.simps split_first_word_def is_separator_def WHITESPACE_def

subsection \<open>What the probes read of the kernel\<close>

text \<open>The loops use the kernel only through the tokenizer.\<close>

lemma string_contains_word_strv_kernel:
  "extract_error k' = extract_error k \<Longrightarrow>
   string_contains_word_strv k' p ws = string_contains_word_strv k p ws"
proof (induction "length p" arbitrary: p rule: less_induct)
  case less
  have e: "extract_first_word k' p = extract_first_word k p"
    using less.prems by (simp add: extract_first_word_def)
  show ?case
    apply (subst string_contains_word_strv.simps)
    apply (subst (2) string_contains_word_strv.simps)
    using less e
    by (auto split: sum.splits option.splits dest: extract_first_word_shorter)
qed

lemma sleep_mode_loop_kernel:
  "extract_error k' = extract_error k \<Longrightarrow>
   sleep_mode_loop k' ms p = sleep_mode_loop k ms p"
proof (induction "length p" arbitrary: p rule: less_induct)
  case less
  have e: "extract_first_word k' p = extract_first_word k p"
    using less.prems by (simp add: extract_first_word_def)
  show ?case
    apply (subst sleep_mode_loop.simps)
    apply (subst (2) sleep_mode_loop.simps)
    using less e
    by (auto split: sum.splits option.splits dest: extract_first_word_shorter)
qed

lemma sleep_state_supported_swap:
  "sleep_state_supported (k\<lparr>enough_swap_for_hibernation := b\<rparr>) l = sleep_state_supported k l"
  by (simp add: sleep_state_supported_def
      string_contains_word_strv_kernel [of "k\<lparr>enough_swap_for_hibernation := b\<rparr>" k]
      split: option.split sum.split)

lemma sleep_mode_supported_swap:
  "sleep_mode_supported (k\<lparr>enough_swap_for_hibernation := b\<rparr>) l = sleep_mode_supported k l"
  by (simp add: sleep_mode_supported_def
      sleep_mode_loop_kernel [of "k\<lparr>enough_swap_for_hibernation := b\<rparr>" k]
      split: option.split sum.split)

lemma can_sleep_internal_suspend_swap:
  "can_sleep_internal (k\<lparr>enough_swap_for_hibernation := b\<rparr>) sc SLEEP_SUSPEND check_allowed
   = can_sleep_internal k sc SLEEP_SUSPEND check_allowed"
  by (simp add: can_sleep_internal_primitive sleep_state_supported_swap sleep_mode_supported_swap
      split: prod.split)

subsection \<open>The example host, evaluated\<close>

lemmas host_eval =
  config_with_def sleep_state_supported_def sleep_mode_supported_def host_kernel_def
  strv_isempty_def strv_contains_def strip_brackets_def
  string_contains_word_strv_words sleep_mode_loop_words words_of_eval



subsection \<open>Suspend-then-hibernate and the results of its two checks\<close>

text \<open>
  \<^verbatim>\<open>can_s2h\<close> taken alone, handed a result that no check of a primitive operation
  returns: with \<^verbatim>\<open>-EIO\<close> for Hibernate it returns \<^verbatim>\<open>true\<close>, by the conversion of
  line 217's value to \<^verbatim>\<open>bool\<close>, and line 237 would return 1. The theorem after it
  shows that the checks \<^verbatim>\<open>can_s2h\<close> really makes never return such a result.
\<close>

lemma can_s2h_returns_bool:
  "(case can_s2h host_kernel
           (\<lambda>operation. if operation = SLEEP_HIBERNATE then (- errno_value EIO, []) else (1, []))
    of (b, t) \<Rightarrow> (if b then 1 else 0 :: int, t)) = (1, [ClockSupported])"
  by (simp add: can_s2h_def operations_def host_kernel_def)



subsection \<open>Probe errors in a primitive check\<close>

text \<open>
  Claim C2 asks that a read or parse error of a probe be propagated by the decision. On a
  host whose state file cannot be read (\<^verbatim>\<open>EIO\<close>), and on one whose tokenizer fails
  (\<^verbatim>\<open>EINVAL\<close>), the state check returns the error and the decision for Suspend is No.
\<close>

theorem primitive_error_counterexample:
  "fst (sleep_state_supported (host_kernel\<lparr>read_one_line_file := (\<lambda>f. Inl EIO)\<rparr>)
          (states (config_with (\<lambda>operation. True)) SLEEP_SUSPEND)) = - errno_value EIO
   \<and> fst (can_sleep_internal (host_kernel\<lparr>read_one_line_file := (\<lambda>f. Inl EIO)\<rparr>)
          (config_with (\<lambda>operation. True)) SLEEP_SUSPEND True) = 0
   \<and> fst (sleep_state_supported (host_kernel\<lparr>extract_error := (\<lambda>p. Some EINVAL)\<rparr>)
          (states (config_with (\<lambda>operation. True)) SLEEP_SUSPEND)) = - errno_value EINVAL
   \<and> fst (can_sleep_internal (host_kernel\<lparr>extract_error := (\<lambda>p. Some EINVAL)\<rparr>)
          (config_with (\<lambda>operation. True)) SLEEP_SUSPEND True) = 0"
  by (simp add: can_sleep_internal_primitive config_with_def sleep_state_supported_def
      host_kernel_def strv_isempty_def string_contains_word_strv.simps extract_first_word_def)

text \<open>
  Claim C2, as amended. For a primitive operation, whenever the state check or the mode
  check ends in an error, of whatever kind, the decision is No: line 239 tests
  \<^verbatim>\<open><= 0\<close>, so no probe error is propagated.
\<close>

theorem primitive_probe_error_is_no:
  assumes "operation \<noteq> SLEEP_SUSPEND_THEN_HIBERNATE"
    and "fst (sleep_state_supported k (states sc operation)) < 0
         \<or> fst (sleep_mode_supported k (modes sc operation)) < 0"
  shows "fst (can_sleep_internal k sc operation check_allowed) = 0"
  using assms by (auto simp: can_sleep_internal_primitive split: prod.splits)

theorem primitive_probe_error_is_no_witness:
  "SLEEP_HIBERNATE \<noteq> SLEEP_SUSPEND_THEN_HIBERNATE
   \<and> fst (sleep_mode_supported (host_kernel\<lparr>access_w_ok := (\<lambda>f. case f of SysPowerState \<Rightarrow> None | SysPowerDisk \<Rightarrow> Some EACCES)\<rparr>)
          (modes (config_with (\<lambda>operation. True)) SLEEP_HIBERNATE)) < 0
   \<and> fst (can_sleep_internal (host_kernel\<lparr>access_w_ok := (\<lambda>f. case f of SysPowerState \<Rightarrow> None | SysPowerDisk \<Rightarrow> Some EACCES)\<rparr>)
          (config_with (\<lambda>operation. True)) SLEEP_HIBERNATE True) = 0"
proof -
  let ?k = "host_kernel\<lparr>access_w_ok := (\<lambda>f. case f of SysPowerState \<Rightarrow> None | SysPowerDisk \<Rightarrow> Some EACCES)\<rparr>"
  let ?sc = "config_with (\<lambda>operation. True)"
  have m: "fst (sleep_mode_supported ?k (modes ?sc SLEEP_HIBERNATE)) < 0"
    by (simp add: sleep_mode_supported_def config_with_def strv_isempty_def host_kernel_def)
  have "fst (can_sleep_internal ?k ?sc SLEEP_HIBERNATE True) = 0"
    by (rule primitive_probe_error_is_no) (use m in simp_all)
  with m show ?thesis by simp
qed

subsection \<open>When suspend-then-hibernate is possible\<close>




subsection \<open>The swap check\<close>

text \<open>
  Claim C4. For a primitive operation that passes the allow gate and whose state and mode
  checks both return a positive value: Suspend is Yes, and Hibernate and HybridSleep are
  Yes when there is enough swap and \<^verbatim>\<open>-ENOSPC\<close> when there is not. The swap check is
  among the probes made exactly when the operation is not Suspend, and the whole result
  for Suspend is the same whatever the swap check would answer.
\<close>

theorem supported_primitive_swap:
  assumes "operation \<noteq> SLEEP_SUSPEND_THEN_HIBERNATE"
    and "\<not> (check_allowed \<and> \<not> allow sc operation)"
    and "0 < fst (sleep_state_supported k (states sc operation))"
    and "0 < fst (sleep_mode_supported k (modes sc operation))"
  shows "fst (can_sleep_internal k sc operation check_allowed) =
           (if operation = SLEEP_SUSPEND then 1
            else if enough_swap_for_hibernation k then 1 else - errno_value ENOSPC)
       \<and> (EnoughSwap \<in> set (snd (can_sleep_internal k sc operation check_allowed)))
           = (operation \<noteq> SLEEP_SUSPEND)
       \<and> (operation = SLEEP_SUSPEND \<longrightarrow>
            can_sleep_internal (k\<lparr>enough_swap_for_hibernation := b\<rparr>) sc operation check_allowed
            = can_sleep_internal k sc operation check_allowed)"
proof -
  obtain rs ts where s: "sleep_state_supported k (states sc operation) = (rs, ts)"
    by (cases "sleep_state_supported k (states sc operation)")
  obtain rm tm where m: "sleep_mode_supported k (modes sc operation) = (rm, tm)"
    by (cases "sleep_mode_supported k (modes sc operation)")
  have ts: "EnoughSwap \<notin> set ts"
    using s by (auto simp: sleep_state_supported_def Let_def split: if_splits option.splits sum.splits)
  have tm: "EnoughSwap \<notin> set tm"
    using m by (auto simp: sleep_mode_supported_def split: if_splits option.splits sum.splits)
  have g: "(check_allowed \<and> \<not> allow sc operation) = False"
    using assms(2) by simp
  have r: "can_sleep_internal k sc operation check_allowed =
      (if operation = SLEEP_SUSPEND then (1, ts @ tm)
       else if \<not> enough_swap_for_hibernation k
         then (- errno_value ENOSPC, ts @ tm @ [EnoughSwap])
       else (1, ts @ tm @ [EnoughSwap]))"
    using assms(1,3,4) s m
    by (simp add: can_sleep_internal_primitive g split del: if_split)
  have "fst (can_sleep_internal k sc operation check_allowed) =
           (if operation = SLEEP_SUSPEND then 1
            else if enough_swap_for_hibernation k then 1 else - errno_value ENOSPC)"
    unfolding r by simp
  moreover have "(EnoughSwap \<in> set (snd (can_sleep_internal k sc operation check_allowed)))
           = (operation \<noteq> SLEEP_SUSPEND)"
    unfolding r using ts tm by simp
  ultimately show ?thesis
    by (simp add: can_sleep_internal_suspend_swap)
qed

theorem supported_primitive_swap_witness:
  "fst (can_sleep_internal (host_kernel\<lparr>enough_swap_for_hibernation := False\<rparr>)
          (config_with (\<lambda>operation. True)) SLEEP_HYBRID_SLEEP True) = - errno_value ENOSPC
   \<and> fst (can_sleep_internal host_kernel
          (config_with (\<lambda>operation. True)) SLEEP_HIBERNATE True) = 1
   \<and> can_sleep_internal (host_kernel\<lparr>enough_swap_for_hibernation := False\<rparr>)
          (config_with (\<lambda>operation. True)) SLEEP_SUSPEND True
       = can_sleep_internal host_kernel (config_with (\<lambda>operation. True)) SLEEP_SUSPEND True
   \<and> fst (can_sleep_internal host_kernel (config_with (\<lambda>operation. True)) SLEEP_SUSPEND True) = 1
   \<and> EnoughSwap \<notin> set (snd (can_sleep_internal host_kernel
          (config_with (\<lambda>operation. True)) SLEEP_SUSPEND True))"
proof -
  let ?k = "host_kernel\<lparr>enough_swap_for_hibernation := False\<rparr>"
  let ?sc = "config_with (\<lambda>operation. True)"
  have a: "fst (can_sleep_internal ?k ?sc SLEEP_HYBRID_SLEEP True) = - errno_value ENOSPC"
    using supported_primitive_swap [of SLEEP_HYBRID_SLEEP True ?sc ?k]
    by (simp add: host_eval)
  have b: "fst (can_sleep_internal host_kernel ?sc SLEEP_HIBERNATE True) = 1"
    using supported_primitive_swap [of SLEEP_HIBERNATE True ?sc host_kernel]
    by (simp add: host_eval)
  have c: "fst (can_sleep_internal host_kernel ?sc SLEEP_SUSPEND True) = 1
      \<and> EnoughSwap \<notin> set (snd (can_sleep_internal host_kernel ?sc SLEEP_SUSPEND True))
      \<and> can_sleep_internal ?k ?sc SLEEP_SUSPEND True
          = can_sleep_internal host_kernel ?sc SLEEP_SUSPEND True"
    using supported_primitive_swap [of SLEEP_SUSPEND True ?sc host_kernel False]
    by (simp add: host_eval)
  from a b c show ?thesis by simp
qed

subsection \<open>Empty candidate lists\<close>

text \<open>
  Claim C5. For a candidate list that is empty (or \<^verbatim>\<open>NULL\<close>): the state check returns
  \<^verbatim>\<open>-ENOMSG\<close> and makes no probe, and the decision for a primitive operation with that
  list of states is No, with no probe made; the mode check returns 1 and makes no probe,
  so that its result is the same on every kernel, whatever the mode file holds and
  whether or not it can be opened.
\<close>

theorem empty_candidates:
  assumes "strv_isempty l"
  shows "sleep_state_supported k l = (- errno_value ENOMSG, [])
       \<and> (operation \<noteq> SLEEP_SUSPEND_THEN_HIBERNATE \<and> states sc operation = l \<longrightarrow>
            can_sleep_internal k sc operation check_allowed = (0, []))
       \<and> sleep_mode_supported k l = (1, [])
       \<and> sleep_mode_supported k' l = sleep_mode_supported k l"
  using assms
  by (simp add: sleep_state_supported_def sleep_mode_supported_def can_sleep_internal_primitive)

theorem empty_candidates_witness:
  "strv_isempty (Some [])
   \<and> sleep_state_supported host_kernel (Some []) = (- 42, [])
   \<and> fst (can_sleep_internal host_kernel
            ((config_with (\<lambda>operation. True))\<lparr>states := (\<lambda>operation. Some [])\<rparr>)
            SLEEP_SUSPEND True) = 0
   \<and> sleep_mode_supported
        (host_kernel\<lparr>access_w_ok := (\<lambda>f. Some ENOENT), read_one_line_file := (\<lambda>f. Inl EIO)\<rparr>)
        (Some []) = (1, [])"
proof -
  have e: "strv_isempty (Some [])"
    by (simp add: strv_isempty_def)
  let ?sc = "(config_with (\<lambda>operation. True))\<lparr>states := (\<lambda>operation. Some [])\<rparr>"
  let ?k = "host_kernel\<lparr>access_w_ok := (\<lambda>f. Some ENOENT), read_one_line_file := (\<lambda>f. Inl EIO)\<rparr>"
  from empty_candidates [OF e, of host_kernel SLEEP_SUSPEND ?sc True]
    empty_candidates [OF e, of ?k] e
  show ?thesis by simp
qed

subsection \<open>Loading: what a configuration file yields\<close>

lemma tristate_nonzero: "(tristate t \<noteq> 0) = (t \<noteq> Some False)"
  by (cases t rule: tristate.cases) simp_all

lemma parse_sleep_config_allow:
  assumes "parse_sleep_config a c = Inr sc"
  shows "allow sc = (\<lambda>operation. case operation of
          SLEEP_SUSPEND \<Rightarrow> AllowSuspend c \<noteq> Some False
        | SLEEP_HIBERNATE \<Rightarrow> AllowHibernation c \<noteq> Some False
        | SLEEP_HYBRID_SLEEP \<Rightarrow>
            (case AllowHybridSleep c of Some b \<Rightarrow> b
             | None \<Rightarrow> AllowSuspend c \<noteq> Some False \<and> AllowHibernation c \<noteq> Some False)
        | SLEEP_SUSPEND_THEN_HIBERNATE \<Rightarrow>
            (case AllowSuspendThenHibernate c of Some b \<Rightarrow> b
             | None \<Rightarrow> AllowSuspend c \<noteq> Some False \<and> AllowHibernation c \<noteq> Some False))"
proof -
  have h: "(if 0 \<le> tristate t then tristate t \<noteq> 0 else x) = (case t of Some b \<Rightarrow> b | None \<Rightarrow> x)" for t x
    by (cases t rule: tristate.cases) simp_all
  from assms show ?thesis
    by (auto simp: parse_sleep_config_def Let_def tristate_nonzero h fun_eq_iff
        split: if_splits SleepOperation.split option.split)
qed

lemma load_unset:
  "parse_sleep_config allocator_fine conf_unset = Inr (config_with (allow_but []))"
  by (auto simp: parse_sleep_config_def allocator_fine_def conf_unset_def config_with_def
      or_default_def strv_new_def Let_def fun_eq_iff allow_but_def split: SleepOperation.split)

lemma load_no_suspend:
  "parse_sleep_config allocator_fine (conf_unset\<lparr>AllowSuspend := Some False\<rparr>) =
   Inr (config_with (allow_but [SLEEP_SUSPEND, SLEEP_HYBRID_SLEEP, SLEEP_SUSPEND_THEN_HIBERNATE]))"
  by (auto simp: parse_sleep_config_def allocator_fine_def conf_unset_def config_with_def
      or_default_def strv_new_def Let_def fun_eq_iff allow_but_def split: SleepOperation.split)

lemma load_no_suspend_hybrid:
  "parse_sleep_config allocator_fine
     (conf_unset\<lparr>AllowSuspend := Some False, AllowHybridSleep := Some True\<rparr>) =
   Inr (config_with (allow_but [SLEEP_SUSPEND, SLEEP_SUSPEND_THEN_HIBERNATE]))"
  by (auto simp: parse_sleep_config_def allocator_fine_def conf_unset_def config_with_def
      or_default_def strv_new_def Let_def fun_eq_iff allow_but_def split: SleepOperation.split)

text \<open>Loading fails only when an allocation does.\<close>

lemma parse_sleep_config_loads:
  assumes "new_ok a" and "\<forall>l. strv_new_ok a l"
  shows "\<exists>sc. parse_sleep_config a c = Inr sc"
  using assms
  by (simp add: parse_sleep_config_def Let_def or_default_def strv_new_def split: option.split)

lemma load_no_hybrid:
  "parse_sleep_config allocator_fine (conf_unset\<lparr>AllowHybridSleep := Some False\<rparr>) =
   Inr (config_with (allow_but [SLEEP_HYBRID_SLEEP]))"
  by (auto simp: parse_sleep_config_def allocator_fine_def conf_unset_def config_with_def
      or_default_def strv_new_def Let_def fun_eq_iff allow_but_def split: SleepOperation.split)

subsection \<open>The policy veto\<close>

text \<open>
  Claim C6. When the loaded configuration does not allow the operation, the public query
  returns No and makes no probe: its result is the same on every kernel, whatever the
  files hold and the swap and alarm checks would answer.
\<close>

theorem can_sleep_disallowed:
  assumes "parse_sleep_config a c = Inr sc"
    and "\<not> allow sc operation"
  shows "can_sleep a c k operation = (0, [])
       \<and> can_sleep a c k' operation = can_sleep a c k operation"
  using assms by (simp add: can_sleep_def can_sleep_internal.simps)

theorem can_sleep_disallowed_witness:
  "parse_sleep_config allocator_fine (conf_unset\<lparr>AllowSuspend := Some False\<rparr>) =
     Inr (config_with (allow_but [SLEEP_SUSPEND, SLEEP_HYBRID_SLEEP, SLEEP_SUSPEND_THEN_HIBERNATE]))
   \<and> can_sleep allocator_fine (conf_unset\<lparr>AllowSuspend := Some False\<rparr>) host_kernel
        SLEEP_SUSPEND = (0, [])
   \<and> fst (can_sleep allocator_fine conf_unset host_kernel SLEEP_SUSPEND) = 1"
proof -
  have n: "\<not> allow (config_with (allow_but [SLEEP_SUSPEND, SLEEP_HYBRID_SLEEP,
      SLEEP_SUSPEND_THEN_HIBERNATE])) SLEEP_SUSPEND"
    by (simp add: config_with_def allow_but_def)
  have y: "fst (can_sleep allocator_fine conf_unset host_kernel SLEEP_SUSPEND) = 1"
    by (simp add: can_sleep_def load_unset can_sleep_internal_primitive host_eval allow_but_def)
  from can_sleep_disallowed [OF load_no_suspend n, of host_kernel] load_no_suspend y
  show ?thesis by simp
qed

subsection \<open>The derived allow flags\<close>

text \<open>
  Claim C7. In a loaded configuration, the allow flag of HybridSleep, and likewise that of
  SuspendThenHibernate, is the administrator's setting when there is one, and otherwise
  holds exactly when neither the Suspend nor the Hibernate setting is false. And loading
  succeeds, whatever the settings, when no allocation fails.
\<close>

theorem derived_allow_flags:
  "(parse_sleep_config a c = Inr sc \<longrightarrow>
      allow sc SLEEP_HYBRID_SLEEP =
        (case AllowHybridSleep c of Some b \<Rightarrow> b
         | None \<Rightarrow> AllowSuspend c \<noteq> Some False \<and> AllowHibernation c \<noteq> Some False)
      \<and> allow sc SLEEP_SUSPEND_THEN_HIBERNATE =
        (case AllowSuspendThenHibernate c of Some b \<Rightarrow> b
         | None \<Rightarrow> AllowSuspend c \<noteq> Some False \<and> AllowHibernation c \<noteq> Some False))
   \<and> (new_ok a \<and> (\<forall>l. strv_new_ok a l) \<longrightarrow> (\<exists>loaded. parse_sleep_config a c = Inr loaded))"
proof (intro conjI impI)
  assume l: "parse_sleep_config a c = Inr sc"
  show "allow sc SLEEP_HYBRID_SLEEP =
        (case AllowHybridSleep c of Some b \<Rightarrow> b
         | None \<Rightarrow> AllowSuspend c \<noteq> Some False \<and> AllowHibernation c \<noteq> Some False)"
    by (simp add: parse_sleep_config_allow [OF l])
  show "allow sc SLEEP_SUSPEND_THEN_HIBERNATE =
        (case AllowSuspendThenHibernate c of Some b \<Rightarrow> b
         | None \<Rightarrow> AllowSuspend c \<noteq> Some False \<and> AllowHibernation c \<noteq> Some False)"
    by (simp add: parse_sleep_config_allow [OF l])
next
  assume "new_ok a \<and> (\<forall>l. strv_new_ok a l)"
  then show "\<exists>loaded. parse_sleep_config a c = Inr loaded"
    by (simp add: parse_sleep_config_loads)
qed

theorem derived_allow_flags_witness:
  "parse_sleep_config allocator_fine (conf_unset\<lparr>AllowSuspend := Some False\<rparr>) =
     Inr (config_with (allow_but [SLEEP_SUSPEND, SLEEP_HYBRID_SLEEP, SLEEP_SUSPEND_THEN_HIBERNATE]))
   \<and> \<not> allow (config_with (allow_but [SLEEP_SUSPEND, SLEEP_HYBRID_SLEEP,
        SLEEP_SUSPEND_THEN_HIBERNATE])) SLEEP_HYBRID_SLEEP
   \<and> \<not> allow (config_with (allow_but [SLEEP_SUSPEND, SLEEP_HYBRID_SLEEP,
        SLEEP_SUSPEND_THEN_HIBERNATE])) SLEEP_SUSPEND_THEN_HIBERNATE
   \<and> parse_sleep_config allocator_fine
        (conf_unset\<lparr>AllowSuspend := Some False, AllowHybridSleep := Some True\<rparr>) =
     Inr (config_with (allow_but [SLEEP_SUSPEND, SLEEP_SUSPEND_THEN_HIBERNATE]))
   \<and> allow (config_with (allow_but [SLEEP_SUSPEND, SLEEP_SUSPEND_THEN_HIBERNATE]))
        SLEEP_HYBRID_SLEEP
   \<and> parse_sleep_config allocator_fine (conf_unset\<lparr>AllowHybridSleep := Some False\<rparr>) =
     Inr (config_with (allow_but [SLEEP_HYBRID_SLEEP]))
   \<and> \<not> allow (config_with (allow_but [SLEEP_HYBRID_SLEEP])) SLEEP_HYBRID_SLEEP
   \<and> allow (config_with (allow_but [SLEEP_HYBRID_SLEEP])) SLEEP_SUSPEND_THEN_HIBERNATE
   \<and> parse_sleep_config allocator_fine conf_unset = Inr (config_with (allow_but []))
   \<and> allow (config_with (allow_but [])) SLEEP_HYBRID_SLEEP
   \<and> allow (config_with (allow_but [])) SLEEP_SUSPEND_THEN_HIBERNATE
   \<and> new_ok allocator_fine \<and> (\<forall>l. strv_new_ok allocator_fine l)
   \<and> (\<exists>loaded. parse_sleep_config allocator_fine conf_unset = Inr loaded)"
proof -
  have f: "new_ok allocator_fine \<and> (\<forall>l. strv_new_ok allocator_fine l)"
    by (simp add: allocator_fine_def)
  have u: "AllowSuspend conf_unset = None" "AllowHibernation conf_unset = None"
    "AllowHybridSleep conf_unset = None" "AllowSuspendThenHibernate conf_unset = None"
    by (simp_all add: conf_unset_def)
  note d = derived_allow_flags [THEN conjunct1, rule_format]
  from d [OF load_no_suspend] u
  have 1: "\<not> allow (config_with (allow_but [SLEEP_SUSPEND, SLEEP_HYBRID_SLEEP,
        SLEEP_SUSPEND_THEN_HIBERNATE])) SLEEP_HYBRID_SLEEP"
    "\<not> allow (config_with (allow_but [SLEEP_SUSPEND, SLEEP_HYBRID_SLEEP,
        SLEEP_SUSPEND_THEN_HIBERNATE])) SLEEP_SUSPEND_THEN_HIBERNATE"
    by simp_all
  from d [OF load_no_suspend_hybrid] u
  have 2: "allow (config_with (allow_but [SLEEP_SUSPEND, SLEEP_SUSPEND_THEN_HIBERNATE]))
        SLEEP_HYBRID_SLEEP"
    by simp
  from d [OF load_no_hybrid] u
  have 3: "\<not> allow (config_with (allow_but [SLEEP_HYBRID_SLEEP])) SLEEP_HYBRID_SLEEP"
    "allow (config_with (allow_but [SLEEP_HYBRID_SLEEP])) SLEEP_SUSPEND_THEN_HIBERNATE"
    by simp_all
  from d [OF load_unset] u
  have 4: "allow (config_with (allow_but [])) SLEEP_HYBRID_SLEEP"
    "allow (config_with (allow_but [])) SLEEP_SUSPEND_THEN_HIBERNATE"
    by simp_all
  from derived_allow_flags [of allocator_fine conf_unset] f
  have 5: "\<exists>loaded. parse_sleep_config allocator_fine conf_unset = Inr loaded"
    by blast
  from 1 2 3 4 5 f load_no_suspend load_no_suspend_hybrid load_no_hybrid load_unset
  show ?thesis by blast
qed

subsection \<open>The two durations\<close>

text \<open>
  Claim C10. In a loaded configuration, a hibernate delay that the administrator did not
  set is \<^verbatim>\<open>USEC_INFINITY\<close>, the largest 64-bit value, and so neither zero nor a
  finite default; a suspend estimation that is unset or zero is replaced by one hour,
  3600000000 microseconds.
\<close>

theorem hibernate_delay_default:
  assumes "parse_sleep_config a c = Inr sc"
  shows "(HibernateDelaySec c = None \<longrightarrow>
            hibernate_delay_usec sc = USEC_INFINITY \<and> unat (hibernate_delay_usec sc) = 2 ^ 64 - 1)
       \<and> (SuspendEstimationSec c = None \<or> SuspendEstimationSec c = Some 0 \<longrightarrow>
            suspend_estimation_usec sc = DEFAULT_SUSPEND_ESTIMATION_USEC
            \<and> unat (suspend_estimation_usec sc) = 3600000000)"
proof -
  have i: "unat USEC_INFINITY = 2 ^ 64 - 1"
    by (simp add: USEC_INFINITY_def unsigned_minus_1_eq_mask mask_eq_exp_minus_1)
  have d: "unat DEFAULT_SUSPEND_ESTIMATION_USEC = 3600000000"
    by (simp add: DEFAULT_SUSPEND_ESTIMATION_USEC_def USEC_PER_HOUR_def)
  from assms show ?thesis
    by (auto simp: parse_sleep_config_def Let_def i d split: if_splits)
qed

theorem hibernate_delay_default_witness:
  "parse_sleep_config allocator_fine conf_unset = Inr (config_with (allow_but []))
   \<and> HibernateDelaySec conf_unset = None
   \<and> SuspendEstimationSec conf_unset = None
   \<and> unat (hibernate_delay_usec (config_with (allow_but []))) = 18446744073709551615
   \<and> unat (suspend_estimation_usec (config_with (allow_but []))) = 3600000000"
proof -
  have a: "HibernateDelaySec conf_unset = None" "SuspendEstimationSec conf_unset = None"
    by (simp_all add: conf_unset_def)
  from hibernate_delay_default [OF load_unset] a
  have "unat (hibernate_delay_usec (config_with (allow_but []))) = 2 ^ 64 - 1"
    and "unat (suspend_estimation_usec (config_with (allow_but []))) = 3600000000"
    by blast+
  with load_unset a show ?thesis by simp
qed

subsection \<open>Matching the kernel's words\<close>

text \<open>Removing the brackets, in the two cases of line 176.\<close>

lemma strip_brackets_wrapped: "strip_brackets (CHR ''['' # m @ [CHR '']'']) = m"
  by (simp add: strip_brackets_def butlast_append)

lemma strip_brackets_literal:
  "w = [] \<or> hd w \<noteq> CHR ''['' \<or> last w \<noteq> CHR '']'' \<Longrightarrow> strip_brackets w = w"
  by (auto simp: strip_brackets_def)

text \<open>The verdicts when the file can be read and the tokenizer does not fail.\<close>

lemma sleep_state_supported_words:
  assumes "\<forall>p. extract_error k p = None"
    and "access_w_ok k SysPowerState = None"
    and "read_one_line_file k SysPowerState = Inr line"
    and "candidates \<noteq> []"
  shows "sleep_state_supported k (Some candidates) =
     (if \<exists>w \<in> set (words_of line). w \<in> set candidates then 1 else 0,
      [Access SysPowerState, ReadOneLine SysPowerState])"
  using assms
  by (simp add: sleep_state_supported_def strv_isempty_def string_contains_word_strv_words
      strv_contains_def)

lemma sleep_mode_supported_words:
  assumes "\<forall>p. extract_error k p = None"
    and "access_w_ok k SysPowerDisk = None"
    and "read_one_line_file k SysPowerDisk = Inr line"
    and "candidates \<noteq> []"
  shows "sleep_mode_supported k (Some candidates) =
     (if \<exists>w \<in> set (words_of line). strip_brackets w \<in> set candidates then 1 else 0,
      [Access SysPowerDisk, ReadOneLine SysPowerDisk])"
  using assms
  by (simp add: sleep_mode_supported_def strv_isempty_def sleep_mode_loop_words
      strv_contains_def)

text \<open>Both checks depend on the candidates only through the set of them.\<close>

lemma sleep_state_supported_set:
  assumes "set candidates' = set candidates"
  shows "sleep_state_supported k (Some candidates') = sleep_state_supported k (Some candidates)"
proof -
  from assms have e: "(candidates' = []) = (candidates = [])"
    by (metis set_empty)
  have "string_contains_word_strv k p (Some candidates')
      = string_contains_word_strv k p (Some candidates)" for p
    by (rule string_contains_word_strv_members) (simp add: strv_contains_def assms)
  with e show ?thesis
    by (simp add: sleep_state_supported_def strv_isempty_def split: option.split sum.split)
qed

lemma sleep_mode_supported_set:
  assumes "set candidates' = set candidates"
  shows "sleep_mode_supported k (Some candidates') = sleep_mode_supported k (Some candidates)"
proof -
  from assms have e: "(candidates' = []) = (candidates = [])"
    by (metis set_empty)
  have "sleep_mode_loop k (Some candidates') p = sleep_mode_loop k (Some candidates) p" for p
    by (rule sleep_mode_loop_members) (simp add: strv_contains_def assms)
  with e show ?thesis
    by (simp add: sleep_mode_supported_def strv_isempty_def split: option.split sum.split)
qed

text \<open>
  Claim C8. When the mode file can be read and tokenized, the mode check succeeds exactly
  when some token of the file, with its brackets removed by \<open>strip_brackets\<close>, is a
  candidate. A token that starts with \<^verbatim>\<open>[\<close> and ends with \<^verbatim>\<open>]\<close> loses exactly
  these two characters, so \<^verbatim>\<open>[platform]\<close> is compared as \<^verbatim>\<open>platform\<close>; a token
  that lacks the first or the last bracket is compared as it is.
\<close>

theorem bracket_stripping:
  assumes "\<forall>p. extract_error k p = None"
    and "access_w_ok k SysPowerDisk = None"
    and "read_one_line_file k SysPowerDisk = Inr line"
    and "candidates \<noteq> []"
  shows "fst (sleep_mode_supported k (Some candidates)) =
           (if \<exists>token \<in> set (words_of line). strip_brackets token \<in> set candidates
            then 1 else 0)
       \<and> strip_brackets (CHR ''['' # m @ [CHR '']'']) = m
       \<and> (w = [] \<or> hd w \<noteq> CHR ''['' \<or> last w \<noteq> CHR '']'' \<longrightarrow> strip_brackets w = w)"
  by (simp add: sleep_mode_supported_words [OF assms] strip_brackets_wrapped
      strip_brackets_literal)

theorem bracket_stripping_witness:
  "fst (sleep_mode_supported (with_line host_kernel SysPowerDisk ''[platform]'')
          (Some [''platform''])) = 1
   \<and> fst (sleep_mode_supported (with_line host_kernel SysPowerDisk ''platform'')
          (Some [''platform''])) = 1
   \<and> fst (sleep_mode_supported (with_line host_kernel SysPowerDisk ''[platform'')
          (Some [''platform''])) = 0
   \<and> fst (sleep_mode_supported (with_line host_kernel SysPowerDisk ''platform]'')
          (Some [''platform''])) = 0
   \<and> fst (sleep_mode_supported (with_line host_kernel SysPowerDisk ''[platform'')
          (Some [''[platform''])) = 1
   \<and> fst (sleep_mode_supported (with_line host_kernel SysPowerDisk ''[[platform]]'')
          (Some [''[platform]''])) = 1
   \<and> fst (sleep_mode_supported (with_line host_kernel SysPowerDisk ''[[platform]]'')
          (Some [''platform''])) = 0
   \<and> strip_brackets ''[platform]'' = ''platform''
   \<and> strip_brackets ''[platform'' = ''[platform''"
proof -
  have k: "\<forall>p. extract_error (with_line host_kernel SysPowerDisk l) p = None"
    "access_w_ok (with_line host_kernel SysPowerDisk l) SysPowerDisk = None"
    "read_one_line_file (with_line host_kernel SysPowerDisk l) SysPowerDisk = Inr l" for l
    by (simp_all add: with_line_def host_kernel_def)
  have c: "[c] \<noteq> []" for c :: string
    by simp
  note b = bracket_stripping [OF k c]
  show ?thesis
    using b [of "''[platform]''" "''platform''" "''platform''" "''[platform''"]
      b [of "''platform''" "''platform''"]
      b [of "''[platform''" "''platform''"]
      b [of "''platform]''" "''platform''"]
      b [of "''[platform''" "''[platform''"]
      b [of "''[[platform]]''" "''[platform]''"]
      b [of "''[[platform]]''" "''platform''"]
    by (simp add: words_of_eval strip_brackets_def)
qed

text \<open>
  Claim C9. The results of the state check and of the mode check are the same for a
  candidate list and any permutation of it. When the file can be read and tokenized and
  the candidate list is not empty, the state check succeeds exactly when a candidate is
  among the kernel's words, the mode check exactly when a candidate is among the kernel's
  words with their brackets removed, and either result is the same for a line that holds
  the same words in another order.
\<close>

theorem verdict_order_independent:
  "(mset candidates' = mset candidates \<longrightarrow>
      sleep_state_supported k (Some candidates') = sleep_state_supported k (Some candidates)
      \<and> sleep_mode_supported k (Some candidates') = sleep_mode_supported k (Some candidates))
   \<and> ((\<forall>p. extract_error k p = None) \<and> candidates \<noteq> []
       \<and> access_w_ok k SysPowerState = None
       \<and> read_one_line_file k SysPowerState = Inr state_line \<longrightarrow>
      fst (sleep_state_supported k (Some candidates)) =
        (if set candidates \<inter> set (words_of state_line) \<noteq> {} then 1 else 0)
      \<and> (mset (words_of state_line') = mset (words_of state_line) \<longrightarrow>
           sleep_state_supported (with_line k SysPowerState state_line') (Some candidates)
           = sleep_state_supported k (Some candidates)))
   \<and> ((\<forall>p. extract_error k p = None) \<and> candidates \<noteq> []
       \<and> access_w_ok k SysPowerDisk = None
       \<and> read_one_line_file k SysPowerDisk = Inr disk_line \<longrightarrow>
      fst (sleep_mode_supported k (Some candidates)) =
        (if set candidates \<inter> strip_brackets ` set (words_of disk_line) \<noteq> {} then 1 else 0)
      \<and> (mset (words_of disk_line') = mset (words_of disk_line) \<longrightarrow>
           sleep_mode_supported (with_line k SysPowerDisk disk_line') (Some candidates)
           = sleep_mode_supported k (Some candidates)))"
proof (intro conjI impI)
  assume "mset candidates' = mset candidates"
  then have s: "set candidates' = set candidates"
    by (rule mset_eq_setD)
  from s show "sleep_state_supported k (Some candidates')
      = sleep_state_supported k (Some candidates)"
    by (rule sleep_state_supported_set)
  from s show "sleep_mode_supported k (Some candidates')
      = sleep_mode_supported k (Some candidates)"
    by (rule sleep_mode_supported_set)
next
  assume a: "(\<forall>p. extract_error k p = None) \<and> candidates \<noteq> []
       \<and> access_w_ok k SysPowerState = None
       \<and> read_one_line_file k SysPowerState = Inr state_line"
  then have v: "sleep_state_supported k (Some candidates) =
     (if \<exists>w \<in> set (words_of state_line). w \<in> set candidates then 1 else 0,
      [Access SysPowerState, ReadOneLine SysPowerState])"
    by (simp add: sleep_state_supported_words)
  show "fst (sleep_state_supported k (Some candidates)) =
        (if set candidates \<inter> set (words_of state_line) \<noteq> {} then 1 else 0)"
    unfolding v by auto
  assume "mset (words_of state_line') = mset (words_of state_line)"
  then have s: "set (words_of state_line') = set (words_of state_line)"
    by (rule mset_eq_setD)
  have "sleep_state_supported (with_line k SysPowerState state_line') (Some candidates) =
     (if \<exists>w \<in> set (words_of state_line'). w \<in> set candidates then 1 else 0,
      [Access SysPowerState, ReadOneLine SysPowerState])"
    using a by (intro sleep_state_supported_words) (simp_all add: with_line_def)
  with v s show "sleep_state_supported (with_line k SysPowerState state_line') (Some candidates)
           = sleep_state_supported k (Some candidates)"
    by simp
next
  assume a: "(\<forall>p. extract_error k p = None) \<and> candidates \<noteq> []
       \<and> access_w_ok k SysPowerDisk = None
       \<and> read_one_line_file k SysPowerDisk = Inr disk_line"
  then have v: "sleep_mode_supported k (Some candidates) =
     (if \<exists>w \<in> set (words_of disk_line). strip_brackets w \<in> set candidates then 1 else 0,
      [Access SysPowerDisk, ReadOneLine SysPowerDisk])"
    by (simp add: sleep_mode_supported_words)
  show "fst (sleep_mode_supported k (Some candidates)) =
        (if set candidates \<inter> strip_brackets ` set (words_of disk_line) \<noteq> {} then 1 else 0)"
    unfolding v by auto
  assume "mset (words_of disk_line') = mset (words_of disk_line)"
  then have s: "set (words_of disk_line') = set (words_of disk_line)"
    by (rule mset_eq_setD)
  have "sleep_mode_supported (with_line k SysPowerDisk disk_line') (Some candidates) =
     (if \<exists>w \<in> set (words_of disk_line'). strip_brackets w \<in> set candidates then 1 else 0,
      [Access SysPowerDisk, ReadOneLine SysPowerDisk])"
    using a by (intro sleep_mode_supported_words) (simp_all add: with_line_def)
  with v s show "sleep_mode_supported (with_line k SysPowerDisk disk_line') (Some candidates)
           = sleep_mode_supported k (Some candidates)"
    by simp
qed

theorem verdict_order_independent_witness:
  "sleep_state_supported host_kernel (Some [''standby'', ''mem''])
     = sleep_state_supported host_kernel (Some [''mem'', ''standby''])
   \<and> fst (sleep_state_supported host_kernel (Some [''mem'', ''standby''])) = 1
   \<and> fst (sleep_state_supported host_kernel (Some [''standby''])) = 0
   \<and> sleep_mode_supported host_kernel (Some [''shutdown'', ''platform''])
     = sleep_mode_supported host_kernel (Some [''platform'', ''shutdown''])
   \<and> fst (sleep_mode_supported host_kernel (Some [''platform'', ''shutdown''])) = 1
   \<and> fst (sleep_mode_supported host_kernel (Some [''suspend''])) = 0
   \<and> sleep_mode_supported (with_line host_kernel SysPowerDisk ''reboot shutdown [platform]'')
        (Some [''platform''])
     = sleep_mode_supported host_kernel (Some [''platform''])
   \<and> sleep_state_supported (with_line host_kernel SysPowerState ''disk mem freeze'')
        (Some [''mem'', ''standby''])
     = sleep_state_supported host_kernel (Some [''mem'', ''standby''])"
proof -
  have k: "\<forall>p. extract_error host_kernel p = None"
    "access_w_ok host_kernel SysPowerState = None"
    "read_one_line_file host_kernel SysPowerState = Inr ''freeze mem disk''"
    "access_w_ok host_kernel SysPowerDisk = None"
    "read_one_line_file host_kernel SysPowerDisk = Inr ''[platform] shutdown reboot''"
    by (simp_all add: host_kernel_def)
  have w: "words_of ''freeze mem disk'' = [''freeze'', ''mem'', ''disk'']"
    "words_of ''disk mem freeze'' = [''disk'', ''mem'', ''freeze'']"
    "words_of ''[platform] shutdown reboot'' = [''[platform]'', ''shutdown'', ''reboot'']"
    "words_of ''reboot shutdown [platform]'' = [''reboot'', ''shutdown'', ''[platform]'']"
    by (simp_all add: words_of_eval)
  note v = verdict_order_independent [of _ _ host_kernel "''freeze mem disk''" _
      "''[platform] shutdown reboot''"]
  show ?thesis
    using v [of "[''standby'', ''mem'']" "[''mem'', ''standby'']" "''disk mem freeze''"]
      v [of "[''shutdown'', ''platform'']" "[''platform'', ''shutdown'']"]
      v [of "[''standby'']" "[''standby'']"]
      v [of "[''suspend'']" "[''suspend'']"]
      v [of "[''platform'']" "[''platform'']" _ "''reboot shutdown [platform]''"]
    by (simp add: k w strip_brackets_def)
qed

end
